theory Spec2Isabelle
  imports Complex_Main
begin

section \<open>JavaScript numbers and strings\<close>

text \<open>
  The fields \<open>hour\<close>, \<open>minute\<close> and \<open>points\<close> of \<open>src/dank-time/dank-time.ts\<close> have the
  TypeScript type \<open>number\<close>: an IEEE double. Every finite double is a rational, and the
  operators the class applies to them (\<open><\<close>, \<open>>\<close>, \<open>%\<close> and \<open>!==\<close>) are exact on
  doubles, so a finite number is modelled by its rational value and the three special
  values are constructors of their own. \<open>-0\<close> is identified with \<open>0\<close>: \<open>===\<close>, \<open><\<close> and
  \<open>>\<close> do not tell them apart.
\<close>

datatype number = Num rat | NaN | PosInfinity | NegInfinity

text \<open>\<open>a < b\<close>: false as soon as one side is \<open>NaN\<close>.\<close>

fun js_lt :: "number \<Rightarrow> number \<Rightarrow> bool" where
  "js_lt (Num a) (Num b) = (a < b)"
| "js_lt (Num a) PosInfinity = True"
| "js_lt NegInfinity (Num b) = True"
| "js_lt NegInfinity PosInfinity = True"
| "js_lt _ _ = False"

text \<open>\<open>a > b\<close> is \<open>b < a\<close>.\<close>

definition js_gt :: "number \<Rightarrow> number \<Rightarrow> bool" where
  "js_gt a b = js_lt b a"

text \<open>\<open>a !== b\<close> on numbers: \<open>NaN\<close> differs from everything, itself included.\<close>

fun js_strict_neq :: "number \<Rightarrow> number \<Rightarrow> bool" where
  "js_strict_neq NaN _ = True"
| "js_strict_neq _ NaN = True"
| "js_strict_neq a b = (a \<noteq> b)"

text \<open>Rounding towards zero, as the quotient of \<open>%\<close> is rounded.\<close>

definition trunc :: "rat \<Rightarrow> int" where
  "trunc q = (if 0 \<le> q then \<lfloor>q\<rfloor> else \<lceil>q\<rceil>)"

text \<open>
  \<open>a % b\<close>: the remainder of the truncated division, with the sign of the dividend;
  \<open>NaN\<close> when an operand is \<open>NaN\<close>, the dividend is infinite or the divisor is zero; the
  dividend itself when only the divisor is infinite.
\<close>

fun js_rem :: "number \<Rightarrow> number \<Rightarrow> number" where
  "js_rem (Num a) (Num b) = (if b = 0 then NaN else Num (a - b * of_int (trunc (a / b))))"
| "js_rem (Num a) PosInfinity = Num a"
| "js_rem (Num a) NegInfinity = Num a"
| "js_rem _ _ = NaN"

text \<open>
  Strings are lists of characters. \<open>String.prototype.toUpperCase\<close> is a built-in of the
  language, so \<open>hasText\<close> below takes it as the parameter \<open>upper\<close>. For concrete ASCII
  inputs \<open>ascii_toUpperCase\<close> is that built-in: it maps \<open>a\<close>..\<open>z\<close> to \<open>A\<close>..\<open>Z\<close> and leaves
  every other ASCII character as it is.
\<close>

definition char_toUpperCase :: "char \<Rightarrow> char" where
  "char_toUpperCase c =
     (if 97 \<le> (of_char c :: nat) \<and> (of_char c :: nat) \<le> 122
      then char_of ((of_char c :: nat) - 32) else c)"

definition ascii_toUpperCase :: "string \<Rightarrow> string" where
  "ascii_toUpperCase s = map char_toUpperCase s"

section \<open>The class DankTime\<close>

text \<open>
  \<open>class DankTime\<close>: the two \<open>readonly\<close> constructor properties \<open>hour\<close> and \<open>minute\<close>, the
  \<open>readonly\<close> array \<open>texts\<close> and the private field \<open>_points\<close> behind the accessor pair
  \<open>points\<close>.
\<close>

record DankTime =
  hour :: number
  minute :: number
  texts :: "string list"
  points_field :: number

text \<open>
  The literal that \<open>toJSON\<close> returns and \<open>fromJSON\<close> reads (interface \<open>BasicDankTime\<close>):
  the same four properties, as plain data.
\<close>

record BasicDankTime =
  lit_hour :: number
  lit_minute :: number
  lit_texts :: "string list"
  lit_points :: number

text \<open>Every \<open>throw\<close> of the class is a \<open>RangeError\<close> with a message.\<close>

datatype error = RangeError string

text \<open>
  \<open>set points(points)\<close>: throws when the value is not a whole number between 1 and 100,
  and stores it otherwise. A throw leaves the object as it was.
\<close>

definition set_points :: "number \<Rightarrow> DankTime \<Rightarrow> error + DankTime" where
  "set_points p this =
     (if js_strict_neq (js_rem p (Num 1)) (Num 0) \<or> js_lt p (Num 1) \<or> js_gt p (Num 100)
      then Inl (RangeError ''The points must be a whole number between 1 and 100!'')
      else Inr (this\<lparr>points_field := p\<rparr>))"

text \<open>\<open>get points()\<close>.\<close>

definition points :: "DankTime \<Rightarrow> number" where
  "points this = points_field this"

text \<open>
  The \<open>forEach\<close> of the constructor: a text is pushed onto \<open>this.texts\<close> unless
  \<open>indexOf\<close> finds it there already (strict equality of strings).
\<close>

fun push_texts :: "string list \<Rightarrow> string list \<Rightarrow> string list" where
  "push_texts [] acc = acc"
| "push_texts (text # rest) acc =
     (if text \<notin> set acc then push_texts rest (acc @ [text]) else push_texts rest acc)"

text \<open>
  \<open>new DankTime(hour, minute, texts, points = 1)\<close>. The checks run in the order of the
  source and the first one that fails throws; \<open>None\<close> is an omitted fourth argument. The
  constructor ends with the setter on \<open>this\<close>, whose \<open>_points\<close> is not yet assigned at
  that moment: \<open>NaN\<close> stands for that unassigned field, which the setter either
  overwrites or, throwing, discards with the whole object.
\<close>

definition DankTime_new ::
  "number \<Rightarrow> number \<Rightarrow> string list \<Rightarrow> number option \<Rightarrow> error + DankTime" where
  "DankTime_new h m ts p =
     (if js_strict_neq (js_rem h (Num 1)) (Num 0) \<or> js_lt h (Num 0) \<or> js_gt h (Num 23)
      then Inl (RangeError ''The hour must be a whole number between 0 and 23!'')
      else if js_strict_neq (js_rem m (Num 1)) (Num 0) \<or> js_lt m (Num 0) \<or> js_gt m (Num 59)
      then Inl (RangeError ''The minute must be a whole number between 0 and 59!'')
      else if length ts < 1
      then Inl (RangeError ''The texts must be a string array containing at least one item!'')
      else set_points (case p of None \<Rightarrow> Num 1 | Some v \<Rightarrow> v)
             \<lparr>hour = h, minute = m, texts = push_texts ts [], points_field = NaN\<rparr>)"

text \<open>
  \<open>hasText(text)\<close>: the argument is upper-cased once, then the loop returns at the first
  stored text whose upper-casing is equal to it.
\<close>

fun hasText_loop :: "(string \<Rightarrow> string) \<Rightarrow> string \<Rightarrow> string list \<Rightarrow> bool" where
  "hasText_loop upper text [] = False"
| "hasText_loop upper text (text2 # rest) =
     (if upper text2 = text then True else hasText_loop upper text rest)"

definition hasText :: "(string \<Rightarrow> string) \<Rightarrow> DankTime \<Rightarrow> string \<Rightarrow> bool" where
  "hasText upper this text = hasText_loop upper (upper text) (texts this)"

text \<open>\<open>toJSON()\<close> and the static \<open>fromJSON(literal)\<close>.\<close>

definition toJSON :: "DankTime \<Rightarrow> BasicDankTime" where
  "toJSON this =
     \<lparr>lit_hour = hour this, lit_minute = minute this, lit_texts = texts this,
      lit_points = points this\<rparr>"

definition fromJSON :: "BasicDankTime \<Rightarrow> error + DankTime" where
  "fromJSON literal =
     DankTime_new (lit_hour literal) (lit_minute literal) (lit_texts literal)
       (Some (lit_points literal))"

text \<open>The static \<open>compare(a, b)\<close>, with its four tests in the order of the source.\<close>

definition compare :: "DankTime \<Rightarrow> DankTime \<Rightarrow> int" where
  "compare a b =
     (if js_lt (hour a) (hour b) then - 1
      else if js_gt (hour a) (hour b) then 1
      else if js_lt (minute a) (minute b) then - 1
      else if js_gt (minute a) (minute b) then 1
      else 0)"

text \<open>
  The DankTime objects a program can hold: the results of the constructor, and what the
  \<open>points\<close> setter makes of them. The class has no other member that writes a field.
\<close>

inductive is_DankTime :: "DankTime \<Rightarrow> bool" where
  constructed: "DankTime_new h m ts p = Inr d \<Longrightarrow> is_DankTime d"
| assigned: "is_DankTime d \<Longrightarrow> set_points p d = Inr d' \<Longrightarrow> is_DankTime d'"

text \<open>
  What a holder of a DankTime can do to it in a typed program, and the object
  afterwards. \<open>hour\<close>, \<open>minute\<close> and \<open>texts\<close> are \<open>readonly\<close>, so an assignment to
  them is refused; \<open>points\<close> has a public setter, and a setter that throws has assigned
  nothing; \<open>get points\<close>, \<open>hasText\<close> and \<open>toJSON\<close> have no assignment in their bodies. The
  array behind \<open>texts\<close> is public and an ordinary \<open>Array<string>\<close> (\<open>toJSON\<close> hands out the
  same array), so a holder can apply the in-place methods of arrays to it:
  \<open>TextsMethod f\<close> is such a call, \<open>f\<close> being what the method makes of the contents, as
  \<open>push\<close> below.
\<close>

datatype operation =
    SetPoints number
  | GetPoints
  | HasText string
  | ToJSON
  | TextsMethod "string list \<Rightarrow> string list"

fun after :: "operation \<Rightarrow> DankTime \<Rightarrow> DankTime" where
  "after (SetPoints p) d = (case set_points p d of Inl e \<Rightarrow> d | Inr d' \<Rightarrow> d')"
| "after GetPoints d = d"
| "after (HasText text) d = d"
| "after ToJSON d = d"
| "after (TextsMethod f) d = d\<lparr>texts := f (texts d)\<rparr>"







text \<open>A whole number between \<open>lo\<close> and \<open>hi\<close>.\<close>

definition whole_between :: "int \<Rightarrow> int \<Rightarrow> number \<Rightarrow> bool" where
  "whole_between lo hi x = (case x of Num q \<Rightarrow> q \<in> \<int> \<and> of_int lo \<le> q \<and> q \<le> of_int hi | _ \<Rightarrow> False)"

text \<open>
  The invariant of the class: what its constructor checks or establishes, and what the
  setter keeps.
\<close>

definition well_formed :: "DankTime \<Rightarrow> bool" where
  "well_formed d \<longleftrightarrow>
     whole_between 0 23 (hour d) \<and> whole_between 0 59 (minute d) \<and>
     texts d \<noteq> [] \<and> distinct (texts d) \<and> whole_between 1 100 (points d)"

section \<open>The nightly update of the server\<close>

text \<open>
  \<open>Server.scheduleNightlyUpdates\<close> in \<open>src/server.ts\<close> hands the cron job a callback; one
  nightly fire is one run of that callback. The callback only calls collaborators: the
  console, the clock \<open>moment().unix()\<close>, the scheduler and the methods of each chat. Their
  code is outside this class, so the model records every call, in order, and takes as
  parameters what they answer: which scheduler and chat calls throw, and what the clock
  returns at each read.

  Of a chat the callback reads \<open>running\<close>, once, when the loop reaches the chat:
  \<open>running\<close> is the value of that read. \<open>chat_id\<close> is the chat's \<open>id\<close>, which names the chat
  in the recorded calls. The registry \<open>chatRegistry.chats\<close> is the list of its chats in
  iteration order; it is keyed by id, and the calls of the cycle add and remove no chat.
\<close>

record Chat =
  chat_id :: int
  running :: bool

datatype call =
    ConsoleInfo string
  | MomentUnix
  | UnscheduleRandomDankTimesOfChat int
  | UnscheduleAutoLeaderboardsOfChat int
  | GenerateRandomDankTimes int
  | ScheduleRandomDankTimesOfChat int
  | ScheduleAutoLeaderboardsOfChat int
  | HardcoreModeCheck int int
  | RemoveUsersWithZeroScore int

text \<open>The chat a call is made for or on; none for the console and the clock.\<close>

fun call_chat :: "call \<Rightarrow> int option" where
  "call_chat (ConsoleInfo msg) = None"
| "call_chat MomentUnix = None"
| "call_chat (UnscheduleRandomDankTimesOfChat i) = Some i"
| "call_chat (UnscheduleAutoLeaderboardsOfChat i) = Some i"
| "call_chat (GenerateRandomDankTimes i) = Some i"
| "call_chat (ScheduleRandomDankTimesOfChat i) = Some i"
| "call_chat (ScheduleAutoLeaderboardsOfChat i) = Some i"
| "call_chat (HardcoreModeCheck i now) = Some i"
| "call_chat (RemoveUsersWithZeroScore i) = Some i"

text \<open>An exception, named by the call that threw it.\<close>

datatype exception = Thrown call

text \<open>The calls made so far, oldest first, and how often the clock has been read.\<close>

record world =
  calls :: "call list"
  clock_reads :: nat

type_synonym 'a action = "world \<Rightarrow> (exception + 'a) \<times> world"

text \<open>
  A call of a scheduler or chat method: it is recorded, and it either returns or throws,
  as \<open>throws\<close> says.
\<close>

definition invoke :: "(call \<Rightarrow> bool) \<Rightarrow> call \<Rightarrow> unit action" where
  "invoke throws c w =
     (if throws c then (Inl (Thrown c), w\<lparr>calls := calls w @ [c]\<rparr>)
      else (Inr (), w\<lparr>calls := calls w @ [c]\<rparr>))"

text \<open>\<open>console.info(msg)\<close> returns.\<close>

definition console_info :: "string \<Rightarrow> unit action" where
  "console_info msg w = (Inr (), w\<lparr>calls := calls w @ [ConsoleInfo msg]\<rparr>)"

text \<open>\<open>this.moment().unix()\<close>: the \<open>k\<close>-th read of the clock returns \<open>clock k\<close>.\<close>

definition moment_unix :: "(nat \<Rightarrow> int) \<Rightarrow> int action" where
  "moment_unix clock w =
     (Inr (clock (clock_reads w)),
      w\<lparr>calls := calls w @ [MomentUnix], clock_reads := Suc (clock_reads w)\<rparr>)"

text \<open>
  Two statements in sequence: an exception of the first leaves the block, so the second
  does not run. The source has no \<open>try\<close>.
\<close>

definition and_then :: "'a action \<Rightarrow> ('a \<Rightarrow> 'b action) \<Rightarrow> 'b action" where
  "and_then p q w = (case p w of (Inl e, w') \<Rightarrow> (Inl e, w') | (Inr x, w') \<Rightarrow> q x w')"

text \<open>
  \<open>chats.forEach(f)\<close>: the chats in the order of the registry; an exception of \<open>f\<close> ends
  the iteration and goes on to the caller of \<open>forEach\<close>.
\<close>

fun forEach :: "'a list \<Rightarrow> ('a \<Rightarrow> unit action) \<Rightarrow> unit action" where
  "forEach [] f w = (Inr (), w)"
| "forEach (x # xs) f w =
     (case f x w of (Inl e, w') \<Rightarrow> (Inl e, w') | (Inr u, w') \<Rightarrow> forEach xs f w')"

text \<open>The body of the \<open>forEach\<close> of the nightly update, for one chat.\<close>

definition nightly_chat :: "(call \<Rightarrow> bool) \<Rightarrow> int \<Rightarrow> Chat \<Rightarrow> unit action" where
  "nightly_chat throws now chat =
     (if running chat then
        and_then (invoke throws (UnscheduleRandomDankTimesOfChat (chat_id chat))) (\<lambda>_.
        and_then (invoke throws (UnscheduleAutoLeaderboardsOfChat (chat_id chat))) (\<lambda>_.
        and_then (invoke throws (GenerateRandomDankTimes (chat_id chat))) (\<lambda>_.
        and_then (invoke throws (ScheduleRandomDankTimesOfChat (chat_id chat))) (\<lambda>_.
        and_then (invoke throws (ScheduleAutoLeaderboardsOfChat (chat_id chat))) (\<lambda>_.
        and_then (invoke throws (HardcoreModeCheck (chat_id chat) now)) (\<lambda>_.
        invoke throws (RemoveUsersWithZeroScore (chat_id chat))))))))
      else (\<lambda>w. (Inr (), w)))"

text \<open>The callback of the cron job.\<close>

definition nightlyUpdate ::
  "(call \<Rightarrow> bool) \<Rightarrow> (nat \<Rightarrow> int) \<Rightarrow> Chat list \<Rightarrow> unit action" where
  "nightlyUpdate throws clock chats =
     and_then (console_info ''Doing the nightly update!'') (\<lambda>_.
     and_then (moment_unix clock) (\<lambda>now.
     forEach chats (nightly_chat throws now)))"

text \<open>One nightly fire: the callback run from an empty record.\<close>

definition nightly_fire ::
  "(call \<Rightarrow> bool) \<Rightarrow> (nat \<Rightarrow> int) \<Rightarrow> Chat list \<Rightarrow> (exception + unit) \<times> world" where
  "nightly_fire throws clock chats = nightlyUpdate throws clock chats \<lparr>calls = [], clock_reads = 0\<rparr>"

text \<open>
  The sequence of section 4.3 of the specification for one room, steps 1 to 7, as the
  calls of the source that carry them out.
\<close>

definition nightly_sequence :: "int \<Rightarrow> int \<Rightarrow> call list" where
  "nightly_sequence now i =
     [UnscheduleRandomDankTimesOfChat i, UnscheduleAutoLeaderboardsOfChat i,
      GenerateRandomDankTimes i,
      ScheduleRandomDankTimesOfChat i, ScheduleAutoLeaderboardsOfChat i,
      HardcoreModeCheck i now, RemoveUsersWithZeroScore i]"

text \<open>
  The sequences of the running rooms one after the other, in the order of the registry:
  what a whole cycle calls when nothing fails.
\<close>

definition planned_calls :: "int \<Rightarrow> Chat list \<Rightarrow> call list" where
  "planned_calls now chats =
     concat (map (\<lambda>chat. if running chat then nightly_sequence now (chat_id chat) else []) chats)"

text \<open>The calls of a record that are made for or on chat \<open>i\<close>.\<close>

definition calls_of_chat :: "int \<Rightarrow> call list \<Rightarrow> call list" where
  "calls_of_chat i cs = filter (\<lambda>c. call_chat c = Some i) cs"

text \<open>
  Calls made one after the other, up to the first that throws: what a block of
  statements with no \<open>try\<close> does.
\<close>

fun run_calls :: "(call \<Rightarrow> bool) \<Rightarrow> call list \<Rightarrow> unit action" where
  "run_calls throws [] w = (Inr (), w)"
| "run_calls throws (c # cs) w =
     (case invoke throws c w of (Inl e, w') \<Rightarrow> (Inl e, w') | (Inr u, w') \<Rightarrow> run_calls throws cs w')"

text \<open>Example inputs: a clock that stands still, and a failure of one chat's regeneration.\<close>

definition fixed_clock :: "int \<Rightarrow> nat \<Rightarrow> int" where
  "fixed_clock t k = t"

definition ticking_clock :: "int \<Rightarrow> nat \<Rightarrow> int" where
  "ticking_clock t k = t + int k"

definition nothing_throws :: "call \<Rightarrow> bool" where
  "nothing_throws c = False"

definition regeneration_throws :: "int \<Rightarrow> call \<Rightarrow> bool" where
  "regeneration_throws i c = (c = GenerateRandomDankTimes i)"

section \<open>Properties of DankTime\<close>

text \<open>
  The three range checks of the class say "not a whole number between the bounds", and
  the constructor returns an object exactly when all four checks pass.
\<close>

lemma trunc_eq_iff: "(q - of_int (trunc q) = 0) \<longleftrightarrow> q \<in> \<int>"
proof
  assume "q - of_int (trunc q) = 0"
  then have "q = of_int (trunc q)" by simp
  then show "q \<in> \<int>" by (metis Ints_of_int)
next
  assume "q \<in> \<int>"
  then obtain k where "q = of_int k" by (auto elim: Ints_cases)
  then show "q - of_int (trunc q) = 0" by (simp add: trunc_def)
qed

lemma not_whole_iff:
  "(js_strict_neq (js_rem x (Num 1)) (Num 0) \<or> js_lt x (Num (of_int lo)) \<or> js_gt x (Num (of_int hi)))
     \<longleftrightarrow> \<not> whole_between lo hi x"
proof (cases x)
  case (Num q)
  have "js_strict_neq (js_rem x (Num 1)) (Num 0) \<longleftrightarrow> q \<notin> \<int>"
    using trunc_eq_iff [of q] by (simp add: Num)
  then show ?thesis by (auto simp: Num whole_between_def js_gt_def)
qed (simp_all add: whole_between_def js_gt_def)

lemma set_points_iff:
  "set_points p d = (if whole_between 1 100 p then Inr (d\<lparr>points_field := p\<rparr>)
     else Inl (RangeError ''The points must be a whole number between 1 and 100!''))"
  using not_whole_iff [of p 1 100] by (simp add: set_points_def)

lemma push_texts_set: "set (push_texts ts acc) = set acc \<union> set ts"
  by (induction ts arbitrary: acc) auto

lemma push_texts_distinct: "distinct acc \<Longrightarrow> distinct (push_texts ts acc)"
  by (induction ts arbitrary: acc) auto

lemma push_texts_id: "distinct (acc @ ts) \<Longrightarrow> push_texts ts acc = acc @ ts"
  by (induction ts arbitrary: acc) auto

lemma remdups_drop_earlier: "t \<in> set ys \<Longrightarrow> remdups (xs @ t # ys) = remdups (xs @ ys)"
  by (induction xs) auto

lemma push_texts_remdups:
  "distinct acc \<Longrightarrow> push_texts ts acc = rev (remdups (rev ts @ rev acc))"
proof (induction ts arbitrary: acc)
  case Nil
  then show ?case by (simp add: distinct_remdups_id)
next
  case (Cons t rest)
  show ?case
  proof (cases "t \<in> set acc")
    case True
    then have "remdups (rev rest @ t # rev acc) = remdups (rev rest @ rev acc)"
      by (simp add: remdups_drop_earlier)
    with True Cons show ?thesis by simp
  next
    case False
    with Cons.prems have "distinct (acc @ [t])" by simp
    from Cons.IH [OF this] False show ?thesis by simp
  qed
qed

lemma DankTime_new_iff:
  "DankTime_new h m ts p =
     (if \<not> whole_between 0 23 h
      then Inl (RangeError ''The hour must be a whole number between 0 and 23!'')
      else if \<not> whole_between 0 59 m
      then Inl (RangeError ''The minute must be a whole number between 0 and 59!'')
      else if ts = []
      then Inl (RangeError ''The texts must be a string array containing at least one item!'')
      else if \<not> whole_between 1 100 (case p of None \<Rightarrow> Num 1 | Some v \<Rightarrow> v)
      then Inl (RangeError ''The points must be a whole number between 1 and 100!'')
      else Inr \<lparr>hour = h, minute = m, texts = push_texts ts [],
                points_field = (case p of None \<Rightarrow> Num 1 | Some v \<Rightarrow> v)\<rparr>)"
  using not_whole_iff [of h 0 23] not_whole_iff [of m 0 59]
  by (simp add: DankTime_new_def set_points_iff)

lemma DankTime_new_well_formed: "DankTime_new h m ts p = Inr d \<Longrightarrow> well_formed d"
  by (auto simp: DankTime_new_iff well_formed_def points_def push_texts_distinct
      push_texts_set [of _ "[]", simplified] simp flip: set_empty split: if_splits)

lemma set_points_well_formed: "well_formed d \<Longrightarrow> set_points p d = Inr d' \<Longrightarrow> well_formed d'"
  by (auto simp: set_points_iff well_formed_def points_def split: if_splits)

lemma is_DankTime_well_formed: "is_DankTime d \<Longrightarrow> well_formed d"
  by (induction rule: is_DankTime.induct)
    (auto intro: DankTime_new_well_formed set_points_well_formed)

lemma well_formed_roundtrip: "well_formed d \<Longrightarrow> fromJSON (toJSON d) = Inr d"
  by (simp add: fromJSON_def toJSON_def DankTime_new_iff well_formed_def points_def
      push_texts_id [of "[]", simplified])

lemma hasText_loop_iff: "hasText_loop upper text ts \<longleftrightarrow> (\<exists>t\<in>set ts. upper t = text)"
  by (induction ts) auto

lemma upper_Potato: "ascii_toUpperCase ''Potato'' = ''POTATO''"
  by code_simp

lemma upper_POTATO: "ascii_toUpperCase ''POTATO'' = ''POTATO''"
  by code_simp

lemma upper_tomato: "ascii_toUpperCase ''tomato'' = ''TOMATO''"
  by code_simp

lemma upper_Go: "ascii_toUpperCase ''Go'' = ''GO''" "ascii_toUpperCase ''go'' = ''GO''"
  "ascii_toUpperCase ''GO'' = ''GO''"
  by code_simp+

lemma whole_betweenE:
  assumes "whole_between lo hi x"
  obtains k where "x = Num (of_int k)" and "lo \<le> k" and "k \<le> hi"
proof (cases x)
  case (Num q)
  with assms have "q \<in> \<int>" by (simp add: whole_between_def)
  then obtain k where "q = of_int k" by (auto elim: Ints_cases)
  with assms Num that show ?thesis by (auto simp: whole_between_def)
qed (use assms in \<open>simp_all add: whole_between_def\<close>)

lemma compare_Num:
  "hour a = Num ha \<Longrightarrow> minute a = Num ma \<Longrightarrow> hour b = Num hb \<Longrightarrow> minute b = Num mb \<Longrightarrow>
   compare a b = (if ha < hb then - 1 else if hb < ha then 1
     else if ma < mb then - 1 else if mb < ma then 1 else 0)"
  by (simp add: compare_def js_gt_def)










text \<open>
  C3. Constructing a DankTime fails with a \<open>RangeError\<close>, and yields no object (so
  nothing is clamped), for every invalid input: an hour that is not a whole number
  between 0 and 23, a minute that is not a whole number between 0 and 59, points that
  are not a whole number between 1 and 100, or an empty list of texts. In particular
  hour 24, minute -1, points 0, points 101 and an empty list of texts fail.
\<close>

theorem DankTime_new_rejects_invalid:
  "(\<not> whole_between 0 23 h \<or> \<not> whole_between 0 59 m \<or> ts = [] \<or>
      \<not> whole_between 1 100 (case p of None \<Rightarrow> Num 1 | Some v \<Rightarrow> v)
     \<longrightarrow> (\<exists>msg. DankTime_new h m ts p = Inl (RangeError msg))) \<and>
   DankTime_new (Num 24) (Num 0) [''go''] None =
     Inl (RangeError ''The hour must be a whole number between 0 and 23!'') \<and>
   DankTime_new (Num 0) (Num (- 1)) [''go''] None =
     Inl (RangeError ''The minute must be a whole number between 0 and 59!'') \<and>
   DankTime_new (Num 0) (Num 0) [''go''] (Some (Num 0)) =
     Inl (RangeError ''The points must be a whole number between 1 and 100!'') \<and>
   DankTime_new (Num 0) (Num 0) [''go''] (Some (Num 101)) =
     Inl (RangeError ''The points must be a whole number between 1 and 100!'') \<and>
   DankTime_new (Num 0) (Num 0) [] None =
     Inl (RangeError ''The texts must be a string array containing at least one item!'')"
proof -
  have "\<exists>msg. DankTime_new h m ts p = Inl (RangeError msg)"
    if "\<not> whole_between 0 23 h \<or> \<not> whole_between 0 59 m \<or> ts = [] \<or>
      \<not> whole_between 1 100 (case p of None \<Rightarrow> Num 1 | Some v \<Rightarrow> v)"
    using that by (auto simp: DankTime_new_iff)
  moreover have "DankTime_new (Num 24) (Num 0) [''go''] None =
     Inl (RangeError ''The hour must be a whole number between 0 and 23!'')"
    by (simp add: DankTime_new_iff whole_between_def)
  moreover have "DankTime_new (Num 0) (Num (- 1)) [''go''] None =
     Inl (RangeError ''The minute must be a whole number between 0 and 59!'')"
    by (simp add: DankTime_new_iff whole_between_def)
  moreover have "DankTime_new (Num 0) (Num 0) [''go''] (Some (Num 0)) =
     Inl (RangeError ''The points must be a whole number between 1 and 100!'')"
    by (simp add: DankTime_new_iff whole_between_def)
  moreover have "DankTime_new (Num 0) (Num 0) [''go''] (Some (Num 101)) =
     Inl (RangeError ''The points must be a whole number between 1 and 100!'')"
    by (simp add: DankTime_new_iff whole_between_def)
  moreover have "DankTime_new (Num 0) (Num 0) [] None =
     Inl (RangeError ''The texts must be a string array containing at least one item!'')"
    by (simp add: DankTime_new_iff whole_between_def)
  ultimately show ?thesis by blast
qed

theorem DankTime_new_rejects_invalid_witness:
  "\<not> whole_between 0 23 (Num (19 / 2)) \<and>
   DankTime_new (Num (19 / 2)) (Num 30) [''go''] (Some (Num 5)) =
     Inl (RangeError ''The hour must be a whole number between 0 and 23!'') \<and>
   \<not> whole_between 0 59 NaN \<and>
   DankTime_new (Num 9) NaN [''go''] (Some (Num 5)) =
     Inl (RangeError ''The minute must be a whole number between 0 and 59!'')"
proof -
  have a: "\<not> whole_between 0 23 (Num (19 / 2))"
  proof -
    have "(19 / 2 :: rat) \<notin> \<int>"
    proof
      assume "(19 / 2 :: rat) \<in> \<int>"
      then obtain k :: int where "(19 / 2 :: rat) = of_int k"
        by (auto elim: Ints_cases)
      then have "of_int 19 = (of_int (2 * k) :: rat)"
        by simp
      then have "(19 :: int) = 2 * k"
        by (simp only: of_int_eq_iff)
      then show False
        by presburger
    qed
    then show ?thesis
      by (simp add: whole_between_def)
  qed
  have b: "\<not> whole_between 0 59 NaN"
    by (simp add: whole_between_def)
  from a DankTime_new_rejects_invalid [of "Num (19 / 2)" "Num 30" "[''go'']" "Some (Num 5)"]
  obtain msg where "DankTime_new (Num (19 / 2)) (Num 30) [''go''] (Some (Num 5)) = Inl (RangeError msg)"
    by blast
  then have c: "DankTime_new (Num (19 / 2)) (Num 30) [''go''] (Some (Num 5)) =
     Inl (RangeError ''The hour must be a whole number between 0 and 23!'')"
    using a by (simp add: DankTime_new_iff)
  from b DankTime_new_rejects_invalid [of "Num 9" NaN "[''go'']" "Some (Num 5)"]
  obtain msg' where "DankTime_new (Num 9) NaN [''go''] (Some (Num 5)) = Inl (RangeError msg')"
    by blast
  then have d: "DankTime_new (Num 9) NaN [''go''] (Some (Num 5)) =
     Inl (RangeError ''The minute must be a whole number between 0 and 59!'')"
    by (simp add: DankTime_new_iff whole_between_def)
  from a b c d show ?thesis by blast
qed

text \<open>
  C4, as the claim states it, fails. The constructor drops a text only when \<open>indexOf\<close>
  finds the very same string: built with \<open>Go\<close>, \<open>go\<close>, \<open>GO\<close>, which are equal when case is
  ignored, a DankTime stores all three.
\<close>

theorem DankTime_new_texts_counterexample:
  "DankTime_new (Num 9) (Num 5) [''Go'', ''go'', ''GO''] None =
     Inr \<lparr>hour = Num 9, minute = Num 5, texts = [''Go'', ''go'', ''GO''], points_field = Num 1\<rparr> \<and>
   ascii_toUpperCase ''Go'' = ascii_toUpperCase ''go'' \<and>
   ascii_toUpperCase ''go'' = ascii_toUpperCase ''GO''"
  by (simp add: DankTime_new_iff whole_between_def upper_Go)

text \<open>
  C4, amended. Texts that are the same string, case included, are stored once: the
  stored texts are pairwise different, they are the texts given, and they stand in the
  order of their first occurrence. Texts that differ only in case are all kept.
\<close>

theorem DankTime_new_texts_exact:
  assumes "DankTime_new h m ts p = Inr d"
  shows "distinct (texts d) \<and> set (texts d) = set ts \<and> texts d = rev (remdups (rev ts))"
proof -
  from assms have "texts d = push_texts ts []"
    by (auto simp: DankTime_new_iff split: if_splits)
  then show ?thesis
    using push_texts_distinct [of "[]" ts] push_texts_set [of ts "[]"] push_texts_remdups [of "[]" ts]
    by simp
qed

theorem DankTime_new_texts_exact_witness:
  "DankTime_new (Num 9) (Num 5) [''Go'', ''Go'', ''go'', ''Go''] None =
     Inr \<lparr>hour = Num 9, minute = Num 5, texts = [''Go'', ''go''], points_field = Num 1\<rparr> \<and>
   texts \<lparr>hour = Num 9, minute = Num 5, texts = [''Go'', ''go''], points_field = Num 1\<rparr> =
     rev (remdups (rev [''Go'', ''Go'', ''go'', ''Go'']))"
proof -
  have new: "DankTime_new (Num 9) (Num 5) [''Go'', ''Go'', ''go'', ''Go''] None =
     Inr \<lparr>hour = Num 9, minute = Num 5, texts = [''Go'', ''go''], points_field = Num 1\<rparr>"
    by (simp add: DankTime_new_iff whole_between_def)
  from DankTime_new_texts_exact [OF new] new show ?thesis by blast
qed




text \<open>
  C6. For every valid input (hour a whole number in 0..23, minute a whole number in
  0..59, at least one text, points a whole number in 1..100 or omitted) the construction
  succeeds, the object has the hour, minute, points and set of texts given, and
  \<open>fromJSON\<close> of its \<open>toJSON\<close> is a DankTime equal to it in all four fields.
\<close>

theorem DankTime_roundtrip:
  assumes "whole_between 0 23 h" and "whole_between 0 59 m" and "ts \<noteq> []"
    and "whole_between 1 100 (case p of None \<Rightarrow> Num 1 | Some v \<Rightarrow> v)"
  shows "\<exists>d. DankTime_new h m ts p = Inr d \<and>
      hour d = h \<and> minute d = m \<and> set (texts d) = set ts \<and>
      points d = (case p of None \<Rightarrow> Num 1 | Some v \<Rightarrow> v) \<and>
      fromJSON (toJSON d) = Inr d"
proof -
  let ?d = "\<lparr>hour = h, minute = m, texts = push_texts ts [],
     points_field = (case p of None \<Rightarrow> Num 1 | Some v \<Rightarrow> v)\<rparr>"
  from assms have new: "DankTime_new h m ts p = Inr ?d"
    by (simp add: DankTime_new_iff)
  then have "fromJSON (toJSON ?d) = Inr ?d"
    by (intro well_formed_roundtrip DankTime_new_well_formed)
  moreover have "set (texts ?d) = set ts"
    by (simp add: push_texts_set)
  ultimately show ?thesis
    using new by (simp add: points_def)
qed

theorem DankTime_roundtrip_witness:
  "whole_between 0 23 (Num 9) \<and> whole_between 0 59 (Num 5) \<and> [''Go'', ''go'', ''Go''] \<noteq> [] \<and>
   whole_between 1 100 (Num 7) \<and>
   DankTime_new (Num 9) (Num 5) [''Go'', ''go'', ''Go''] (Some (Num 7)) =
     Inr \<lparr>hour = Num 9, minute = Num 5, texts = [''Go'', ''go''], points_field = Num 7\<rparr> \<and>
   fromJSON (toJSON \<lparr>hour = Num 9, minute = Num 5, texts = [''Go'', ''go''], points_field = Num 7\<rparr>) =
     Inr \<lparr>hour = Num 9, minute = Num 5, texts = [''Go'', ''go''], points_field = Num 7\<rparr>"
proof -
  have h: "whole_between 0 23 (Num 9)" and m: "whole_between 0 59 (Num 5)"
    and p: "whole_between 1 100 (case Some (Num 7) of None \<Rightarrow> Num 1 | Some v \<Rightarrow> v)"
    by (simp_all add: whole_between_def)
  have ts: "[''Go'', ''go'', ''Go''] \<noteq> []"
    by simp
  have new: "DankTime_new (Num 9) (Num 5) [''Go'', ''go'', ''Go''] (Some (Num 7)) =
     Inr \<lparr>hour = Num 9, minute = Num 5, texts = [''Go'', ''go''], points_field = Num 7\<rparr>"
    using h m p by (simp add: DankTime_new_iff)
  from DankTime_roundtrip [OF h m ts p] new
  have "fromJSON (toJSON \<lparr>hour = Num 9, minute = Num 5, texts = [''Go'', ''go''], points_field = Num 7\<rparr>) =
     Inr \<lparr>hour = Num 9, minute = Num 5, texts = [''Go'', ''go''], points_field = Num 7\<rparr>"
    by auto
  with h m ts p new show ?thesis by simp
qed

text \<open>
  C7. For every two DankTimes, \<open>compare\<close> orders by hour, then minute, ascending: the
  result is negative exactly when the first has the earlier (hour, minute), positive
  exactly when it has the later one, and 0 exactly when hour and minute are equal. The
  witness is the example of the specification: 9:05, 9:30 and 10:00 ascend, and 9:05
  compares equal to itself.
\<close>

theorem compare_orders_by_hour_minute:
  assumes "is_DankTime a" and "is_DankTime b"
  shows "\<exists>ha ma hb mb. hour a = Num ha \<and> minute a = Num ma \<and> hour b = Num hb \<and> minute b = Num mb \<and>
      (compare a b < 0 \<longleftrightarrow> ha < hb \<or> (ha = hb \<and> ma < mb)) \<and>
      (compare a b > 0 \<longleftrightarrow> hb < ha \<or> (ha = hb \<and> mb < ma)) \<and>
      (compare a b = 0 \<longleftrightarrow> ha = hb \<and> ma = mb)"
proof -
  from assms have "well_formed a" and "well_formed b"
    by (simp_all add: is_DankTime_well_formed)
  then obtain ha ma hb mb :: int
    where a: "hour a = Num (of_int ha)" "minute a = Num (of_int ma)"
      and b: "hour b = Num (of_int hb)" "minute b = Num (of_int mb)"
    unfolding well_formed_def by (metis whole_betweenE)
  have "(compare a b < 0 \<longleftrightarrow> ha < hb \<or> (ha = hb \<and> ma < mb)) \<and>
      (compare a b > 0 \<longleftrightarrow> hb < ha \<or> (ha = hb \<and> mb < ma)) \<and>
      (compare a b = 0 \<longleftrightarrow> ha = hb \<and> ma = mb)"
    by (auto simp: compare_Num [OF a b])
  with a b show ?thesis
    by (intro exI [of _ "of_int ha"] exI [of _ "of_int ma"] exI [of _ "of_int hb"]
        exI [of _ "of_int mb"]) simp
qed

theorem compare_orders_by_hour_minute_witness:
  "is_DankTime \<lparr>hour = Num 9, minute = Num 5, texts = [''go''], points_field = Num 1\<rparr> \<and>
   is_DankTime \<lparr>hour = Num 9, minute = Num 30, texts = [''go''], points_field = Num 1\<rparr> \<and>
   is_DankTime \<lparr>hour = Num 10, minute = Num 0, texts = [''go''], points_field = Num 1\<rparr> \<and>
   compare \<lparr>hour = Num 9, minute = Num 5, texts = [''go''], points_field = Num 1\<rparr>
     \<lparr>hour = Num 9, minute = Num 30, texts = [''go''], points_field = Num 1\<rparr> < 0 \<and>
   compare \<lparr>hour = Num 9, minute = Num 30, texts = [''go''], points_field = Num 1\<rparr>
     \<lparr>hour = Num 10, minute = Num 0, texts = [''go''], points_field = Num 1\<rparr> < 0 \<and>
   compare \<lparr>hour = Num 9, minute = Num 5, texts = [''go''], points_field = Num 1\<rparr>
     \<lparr>hour = Num 10, minute = Num 0, texts = [''go''], points_field = Num 1\<rparr> < 0 \<and>
   compare \<lparr>hour = Num 10, minute = Num 0, texts = [''go''], points_field = Num 1\<rparr>
     \<lparr>hour = Num 9, minute = Num 30, texts = [''go''], points_field = Num 1\<rparr> > 0 \<and>
   compare \<lparr>hour = Num 9, minute = Num 5, texts = [''go''], points_field = Num 1\<rparr>
     \<lparr>hour = Num 9, minute = Num 5, texts = [''go''], points_field = Num 1\<rparr> = 0"
proof -
  let ?a = "\<lparr>hour = Num 9, minute = Num 5, texts = [''go''], points_field = Num 1\<rparr>"
  let ?b = "\<lparr>hour = Num 9, minute = Num 30, texts = [''go''], points_field = Num 1\<rparr>"
  let ?c = "\<lparr>hour = Num 10, minute = Num 0, texts = [''go''], points_field = Num 1\<rparr>"
  have "DankTime_new (Num 9) (Num 5) [''go''] None = Inr ?a"
    by (simp add: DankTime_new_iff whole_between_def)
  then have a: "is_DankTime ?a" by (rule constructed)
  have "DankTime_new (Num 9) (Num 30) [''go''] None = Inr ?b"
    by (simp add: DankTime_new_iff whole_between_def)
  then have b: "is_DankTime ?b" by (rule constructed)
  have "DankTime_new (Num 10) (Num 0) [''go''] None = Inr ?c"
    by (simp add: DankTime_new_iff whole_between_def)
  then have c: "is_DankTime ?c" by (rule constructed)
  from compare_orders_by_hour_minute [OF a b] have ab: "compare ?a ?b < 0" by auto
  from compare_orders_by_hour_minute [OF b c] have bc: "compare ?b ?c < 0" by auto
  from compare_orders_by_hour_minute [OF a c] have ac: "compare ?a ?c < 0" by auto
  from compare_orders_by_hour_minute [OF c b] have cb: "compare ?c ?b > 0" by auto
  from compare_orders_by_hour_minute [OF a a] have aa: "compare ?a ?a = 0" by auto
  from a b c ab bc ac cb aa show ?thesis by blast
qed

text \<open>
  C8. \<open>hasText\<close> ignores case: for every DankTime, every query and whatever
  \<open>toUpperCase\<close> computes, it returns true exactly when some stored text has the same
  upper-casing as the query. A DankTime built with the text \<open>Potato\<close> answers true to the
  query \<open>POTATO\<close>.
\<close>

theorem hasText_case_insensitive:
  "(hasText upper d query \<longleftrightarrow> (\<exists>t\<in>set (texts d). upper t = upper query)) \<and>
   (\<exists>potato. DankTime_new (Num 9) (Num 5) [''Potato''] None = Inr potato \<and>
      hasText ascii_toUpperCase potato ''POTATO'')"
proof -
  have "DankTime_new (Num 9) (Num 5) [''Potato''] None =
      Inr \<lparr>hour = Num 9, minute = Num 5, texts = [''Potato''], points_field = Num 1\<rparr>"
    by (simp add: DankTime_new_iff whole_between_def)
  moreover have "hasText ascii_toUpperCase
      \<lparr>hour = Num 9, minute = Num 5, texts = [''Potato''], points_field = Num 1\<rparr> ''POTATO''"
    by (simp add: hasText_def upper_Potato upper_POTATO)
  ultimately show ?thesis
    by (simp add: hasText_def hasText_loop_iff)
qed

theorem hasText_case_insensitive_witness:
  "hasText ascii_toUpperCase
     \<lparr>hour = Num 9, minute = Num 5, texts = [''tomato'', ''Potato''], points_field = Num 1\<rparr> ''POTATO'' \<and>
   \<not> hasText ascii_toUpperCase
     \<lparr>hour = Num 9, minute = Num 5, texts = [''tomato''], points_field = Num 1\<rparr> ''POTATO''"
  using hasText_case_insensitive [of ascii_toUpperCase
      "\<lparr>hour = Num 9, minute = Num 5, texts = [''tomato'', ''Potato''], points_field = Num 1\<rparr>" "''POTATO''"]
    hasText_case_insensitive [of ascii_toUpperCase
      "\<lparr>hour = Num 9, minute = Num 5, texts = [''tomato''], points_field = Num 1\<rparr>" "''POTATO''"]
  by (simp add: upper_Potato upper_POTATO upper_tomato)

text \<open>
  C10. For every DankTime and every number \<open>p\<close>, assigning \<open>p\<close> to \<open>points\<close> succeeds
  exactly when \<open>p\<close> is a whole number between 1 and 100, and \<open>points\<close> is \<open>p\<close> afterwards;
  otherwise a \<open>RangeError\<close> is thrown and the object is unchanged. So the points of every
  DankTime, after its construction and every assignment, are a whole number between 1
  and 100.
\<close>

theorem points_setter_range:
  assumes "is_DankTime d"
  shows "((\<exists>d'. set_points p d = Inr d') \<longleftrightarrow> whole_between 1 100 p) \<and>
     (whole_between 1 100 p \<longrightarrow> points (after (SetPoints p) d) = p) \<and>
     (\<not> whole_between 1 100 p \<longrightarrow>
        set_points p d = Inl (RangeError ''The points must be a whole number between 1 and 100!'') \<and>
        after (SetPoints p) d = d) \<and>
     whole_between 1 100 (points d)"
proof -
  from assms have "whole_between 1 100 (points d)"
    using is_DankTime_well_formed by (simp add: well_formed_def)
  then show ?thesis
    by (simp add: set_points_iff points_def)
qed

theorem points_setter_range_witness:
  "is_DankTime \<lparr>hour = Num 9, minute = Num 5, texts = [''go''], points_field = Num 100\<rparr> \<and>
   whole_between 1 100 (Num 100) \<and> \<not> whole_between 1 100 (Num 101) \<and>
   points (after (SetPoints (Num 100))
     \<lparr>hour = Num 9, minute = Num 5, texts = [''go''], points_field = Num 1\<rparr>) = Num 100 \<and>
   after (SetPoints (Num 101))
     \<lparr>hour = Num 9, minute = Num 5, texts = [''go''], points_field = Num 100\<rparr> =
     \<lparr>hour = Num 9, minute = Num 5, texts = [''go''], points_field = Num 100\<rparr>"
proof -
  let ?d = "\<lparr>hour = Num 9, minute = Num 5, texts = [''go''], points_field = Num 1\<rparr>"
  let ?d' = "\<lparr>hour = Num 9, minute = Num 5, texts = [''go''], points_field = Num 100\<rparr>"
  have "DankTime_new (Num 9) (Num 5) [''go''] None = Inr ?d"
    by (simp add: DankTime_new_iff whole_between_def)
  then have d: "is_DankTime ?d" by (rule constructed)
  have in_range: "whole_between 1 100 (Num 100)" and out_of_range: "\<not> whole_between 1 100 (Num 101)"
    by (simp_all add: whole_between_def)
  have "set_points (Num 100) ?d = Inr ?d'"
    using in_range by (simp add: set_points_iff)
  with d have d': "is_DankTime ?d'" by (rule assigned)
  from points_setter_range [OF d, of "Num 100"] in_range
  have "points (after (SetPoints (Num 100)) ?d) = Num 100" by blast
  moreover from points_setter_range [OF d', of "Num 101"] out_of_range
  have "after (SetPoints (Num 101)) ?d' = ?d'" by blast
  ultimately show ?thesis
    using d' in_range out_of_range by blast
qed

section \<open>Properties of the nightly update\<close>

text \<open>
  The callback is a straight line of calls: it makes the planned calls in order and
  stops at the first that throws.
\<close>

lemma run_calls_append:
  "run_calls throws (xs @ ys) w =
     (case run_calls throws xs w of (Inl e, w') \<Rightarrow> (Inl e, w') | (Inr u, w') \<Rightarrow> run_calls throws ys w')"
  by (induction xs arbitrary: w) (auto simp: invoke_def split: prod.splits sum.splits)

lemma run_calls_ok:
  "\<forall>c\<in>set cs. \<not> throws c \<Longrightarrow> run_calls throws cs w = (Inr (), w\<lparr>calls := calls w @ cs\<rparr>)"
  by (induction cs arbitrary: w) (auto simp: invoke_def)

lemma run_calls_fail:
  assumes "\<forall>c\<in>set pre. \<not> throws c" and "throws e"
  shows "run_calls throws (pre @ e # post) w = (Inl (Thrown e), w\<lparr>calls := calls w @ pre @ [e]\<rparr>)"
  using assms by (simp add: run_calls_append run_calls_ok invoke_def)

lemma run_calls_prefix:
  "\<exists>n. snd (run_calls throws cs w) = w\<lparr>calls := calls w @ take n cs\<rparr>"
proof (induction cs arbitrary: w)
  case Nil
  then show ?case by simp
next
  case (Cons c cs)
  show ?case
  proof (cases "throws c")
    case True
    then have "snd (run_calls throws (c # cs) w) = w\<lparr>calls := calls w @ take 1 (c # cs)\<rparr>"
      by (simp add: invoke_def)
    then show ?thesis by blast
  next
    case False
    from Cons.IH [of "w\<lparr>calls := calls w @ [c]\<rparr>"] obtain n
      where "snd (run_calls throws cs (w\<lparr>calls := calls w @ [c]\<rparr>)) = w\<lparr>calls := calls w @ c # take n cs\<rparr>"
      by auto
    with False have "snd (run_calls throws (c # cs) w) = w\<lparr>calls := calls w @ take (Suc n) (c # cs)\<rparr>"
      by (simp add: invoke_def)
    then show ?thesis by blast
  qed
qed

lemma nightly_chat_run_calls:
  "nightly_chat throws now chat w =
     run_calls throws (if running chat then nightly_sequence now (chat_id chat) else []) w"
  by (simp add: nightly_chat_def nightly_sequence_def and_then_def split: prod.splits sum.splits)

lemma forEach_run_calls:
  "forEach chats (nightly_chat throws now) w = run_calls throws (planned_calls now chats) w"
proof (induction chats arbitrary: w)
  case Nil
  then show ?case by (simp add: planned_calls_def)
next
  case (Cons c cs)
  have "planned_calls now (c # cs) =
      (if running c then nightly_sequence now (chat_id c) else []) @ planned_calls now cs"
    by (simp add: planned_calls_def)
  then show ?case
    using Cons.IH by (simp add: run_calls_append nightly_chat_run_calls split: prod.splits sum.splits)
qed

lemma nightly_fire_run_calls:
  "nightly_fire throws clock chats =
     run_calls throws (planned_calls (clock 0) chats)
       \<lparr>calls = [ConsoleInfo ''Doing the nightly update!'', MomentUnix], clock_reads = 1\<rparr>"
  by (simp add: nightly_fire_def nightlyUpdate_def and_then_def console_info_def moment_unix_def
      forEach_run_calls)

lemma call_chat_sequence: "x \<in> set (nightly_sequence now i) \<Longrightarrow> call_chat x = Some i"
  by (auto simp: nightly_sequence_def)

lemma calls_of_chat_sequence:
  "calls_of_chat i (nightly_sequence now j) = (if i = j then nightly_sequence now j else [])"
  by (simp add: calls_of_chat_def nightly_sequence_def)

lemma calls_of_chat_Nil: "calls_of_chat i [] = []"
  by (simp add: calls_of_chat_def)

lemma calls_of_chat_append: "calls_of_chat i (xs @ ys) = calls_of_chat i xs @ calls_of_chat i ys"
  by (simp add: calls_of_chat_def)

lemma calls_of_chat_planned_absent:
  "i \<notin> chat_id ` set chats \<Longrightarrow> calls_of_chat i (planned_calls now chats) = []"
  by (induction chats)
    (auto simp: planned_calls_def calls_of_chat_append calls_of_chat_sequence calls_of_chat_Nil)

lemma planned_calls_Cons:
  "planned_calls now (c # cs) =
      (if running c then nightly_sequence now (chat_id c) else []) @ planned_calls now cs"
  by (simp add: planned_calls_def)

lemma planned_calls_append:
  "planned_calls now (xs @ ys) = planned_calls now xs @ planned_calls now ys"
  by (simp add: planned_calls_def)

lemma calls_of_chat_planned:
  "distinct (map chat_id chats) \<Longrightarrow> chat \<in> set chats \<Longrightarrow>
   calls_of_chat (chat_id chat) (planned_calls now chats) =
     (if running chat then nightly_sequence now (chat_id chat) else [])"
proof (induction chats)
  case Nil
  then show ?case by simp
next
  case (Cons c cs)
  show ?case
  proof (cases "chat = c")
    case True
    with Cons.prems have "chat_id chat \<notin> chat_id ` set cs" by simp
    then have "calls_of_chat (chat_id chat) (planned_calls now cs) = []"
      by (rule calls_of_chat_planned_absent)
    with True show ?thesis
      by (simp add: planned_calls_Cons calls_of_chat_append calls_of_chat_sequence calls_of_chat_Nil)
  next
    case False
    with Cons.prems have in_cs: "chat \<in> set cs" and "chat_id c \<noteq> chat_id chat" by auto
    with Cons show ?thesis
      by (simp add: planned_calls_Cons calls_of_chat_append calls_of_chat_sequence calls_of_chat_Nil)
  qed
qed

lemma nightly_sequence_no_clock: "MomentUnix \<notin> set (nightly_sequence now i)"
  by (simp add: nightly_sequence_def)

lemma nightly_sequence_now:
  "HardcoreModeCheck j n \<in> set (nightly_sequence now i) \<Longrightarrow> n = now"
  by (auto simp: nightly_sequence_def)

lemma planned_calls_elem:
  "x \<in> set (planned_calls now chats) \<Longrightarrow>
   \<exists>chat\<in>set chats. running chat \<and> x \<in> set (nightly_sequence now (chat_id chat))"
  by (auto simp: planned_calls_def split: if_splits)

lemma planned_calls_hardcore:
  "chat \<in> set chats \<Longrightarrow> running chat \<Longrightarrow>
   HardcoreModeCheck (chat_id chat) now \<in> set (planned_calls now chats)"
  by (auto simp: planned_calls_def nightly_sequence_def)

lemma calls_of_chat_foreign:
  "\<forall>x\<in>set xs. call_chat x = Some j \<Longrightarrow> i \<noteq> j \<Longrightarrow> calls_of_chat i xs = []"
  by (auto simp: calls_of_chat_def filter_empty_conv)

lemma calls_of_chat_take_absent:
  "calls_of_chat i xs = [] \<Longrightarrow> calls_of_chat i (take k xs) = []"
  unfolding calls_of_chat_def filter_empty_conv by (meson in_set_takeD)

lemma calls_of_chat_own:
  "\<forall>x\<in>set xs. call_chat x = Some i \<Longrightarrow> calls_of_chat i xs = xs"
  by (simp add: calls_of_chat_def)

lemma calls_of_chat_take_planned:
  assumes "distinct (map chat_id chats)" and "chat \<in> set chats" and "running chat"
  shows "\<exists>n. calls_of_chat (chat_id chat) (take k (planned_calls now chats)) =
     take n (nightly_sequence now (chat_id chat))"
proof -
  let ?i = "chat_id chat"
  let ?seq = "nightly_sequence now ?i"
  from assms(2) obtain xs ys where chats: "chats = xs @ chat # ys"
    by (auto dest: split_list)
  with assms(1) have "?i \<notin> chat_id ` set xs" and "?i \<notin> chat_id ` set ys"
    by auto
  then have xs: "calls_of_chat ?i (planned_calls now xs) = []"
    and ys: "calls_of_chat ?i (planned_calls now ys) = []"
    by (simp_all add: calls_of_chat_planned_absent)
  have plan: "planned_calls now chats = planned_calls now xs @ ?seq @ planned_calls now ys"
    using assms(3) by (simp add: chats planned_calls_append planned_calls_Cons)
  let ?n = "k - length (planned_calls now xs)"
  have "\<forall>x\<in>set (take ?n ?seq). call_chat x = Some ?i"
    using call_chat_sequence by (meson in_set_takeD)
  then have "calls_of_chat ?i (take ?n ?seq) = take ?n ?seq"
    by (rule calls_of_chat_own)
  then have "calls_of_chat ?i (take k (planned_calls now chats)) = take ?n ?seq"
    by (simp add: plan calls_of_chat_append calls_of_chat_take_absent [OF xs]
        calls_of_chat_take_absent [OF ys])
  then show ?thesis by blast
qed

lemma run_calls_through:
  assumes "\<forall>x\<in>set xs. \<not> throws x"
  shows "\<exists>n. snd (run_calls throws (xs @ ys) w) = w\<lparr>calls := calls w @ xs @ take n ys\<rparr>"
proof -
  obtain n where "snd (run_calls throws ys (w\<lparr>calls := calls w @ xs\<rparr>)) =
      w\<lparr>calls := calls w @ xs\<rparr>\<lparr>calls := calls (w\<lparr>calls := calls w @ xs\<rparr>) @ take n ys\<rparr>"
    using run_calls_prefix by blast
  then have "snd (run_calls throws (xs @ ys) w) = w\<lparr>calls := calls w @ xs @ take n ys\<rparr>"
    using assms by (simp add: run_calls_append run_calls_ok)
  then show ?thesis by blast
qed

lemma planned_calls_quiet:
  assumes "\<forall>c\<in>set chats. running c \<longrightarrow> (\<forall>x\<in>set (nightly_sequence now (chat_id c)). \<not> throws x)"
  shows "\<forall>x\<in>set (planned_calls now chats). \<not> throws x"
proof
  fix x assume "x \<in> set (planned_calls now chats)"
  then obtain c where "c \<in> set chats" and "running c"
    and "x \<in> set (nightly_sequence now (chat_id c))"
    using planned_calls_elem by blast
  with assms show "\<not> throws x" by blast
qed

text \<open>
  C1. On a nightly fire, the calls made for a room whose \<open>running\<close> flag is true are
  always an initial part of the sequence, in its order: unschedule the random times,
  unschedule the leaderboard post, regenerate, reschedule the random times, reschedule
  the leaderboard post, hardcore-mode check, removal of the zero scores. When no call
  made up to the end of the room's sequence throws (no call for an earlier running room,
  none of the room's own), the room gets exactly these seven calls, as one uninterrupted
  block right after the calls of the earlier rooms, whatever the later rooms do. Each
  call returns before the next is made: unscheduling is over before regeneration
  starts, and regeneration is over before rescheduling starts.
\<close>

theorem nightly_room_sequence:
  assumes ids: "distinct (map chat_id (before @ chat # rest))" and run: "running chat"
  shows "(\<exists>n. calls_of_chat (chat_id chat)
          (calls (snd (nightly_fire throws clock (before @ chat # rest)))) =
        take n (nightly_sequence (clock 0) (chat_id chat))) \<and>
     ((\<forall>c\<in>set before. running c \<longrightarrow>
          (\<forall>x\<in>set (nightly_sequence (clock 0) (chat_id c)). \<not> throws x)) \<and>
      (\<forall>x\<in>set (nightly_sequence (clock 0) (chat_id chat)). \<not> throws x) \<longrightarrow>
        calls_of_chat (chat_id chat)
          (calls (snd (nightly_fire throws clock (before @ chat # rest)))) =
          nightly_sequence (clock 0) (chat_id chat) \<and>
        (\<exists>later. calls (snd (nightly_fire throws clock (before @ chat # rest))) =
           [ConsoleInfo ''Doing the nightly update!'', MomentUnix] @
           planned_calls (clock 0) before @ nightly_sequence (clock 0) (chat_id chat) @ later))"
proof -
  let ?w = "\<lparr>calls = [ConsoleInfo ''Doing the nightly update!'', MomentUnix], clock_reads = 1\<rparr>"
  let ?chats = "before @ chat # rest"
  let ?plan = "planned_calls (clock 0) ?chats"
  let ?seq = "nightly_sequence (clock 0) (chat_id chat)"
  let ?fire = "nightly_fire throws clock ?chats"
  let ?i = "chat_id chat"
  have mem: "chat \<in> set ?chats" by simp
  obtain k where k: "snd ?fire = ?w\<lparr>calls := calls ?w @ take k ?plan\<rparr>"
    using run_calls_prefix [of throws ?plan ?w] by (auto simp: nightly_fire_run_calls)
  obtain n where "calls_of_chat ?i (take k ?plan) = take n ?seq"
    using calls_of_chat_take_planned [OF ids mem run] by blast
  then have "calls_of_chat ?i (calls (snd ?fire)) = take n ?seq"
    by (simp add: k calls_of_chat_def)
  then have always: "\<exists>n. calls_of_chat ?i (calls (snd ?fire)) = take n ?seq"
    by blast
  have "calls_of_chat ?i (calls (snd ?fire)) = ?seq \<and>
      (\<exists>later. calls (snd ?fire) =
         [ConsoleInfo ''Doing the nightly update!'', MomentUnix] @
         planned_calls (clock 0) before @ ?seq @ later)"
    if quiet_before: "\<forall>c\<in>set before. running c \<longrightarrow>
          (\<forall>x\<in>set (nightly_sequence (clock 0) (chat_id c)). \<not> throws x)"
      and quiet_own: "\<forall>x\<in>set ?seq. \<not> throws x"
  proof -
    have plan: "?plan = (planned_calls (clock 0) before @ ?seq) @ planned_calls (clock 0) rest"
      using run by (simp add: planned_calls_append planned_calls_Cons)
    have "\<forall>x\<in>set (planned_calls (clock 0) before @ ?seq). \<not> throws x"
      using planned_calls_quiet [OF quiet_before] quiet_own by auto
    from run_calls_through [OF this, of "planned_calls (clock 0) rest" ?w]
    obtain m where "snd ?fire = ?w\<lparr>calls := calls ?w @
        (planned_calls (clock 0) before @ ?seq) @ take m (planned_calls (clock 0) rest)\<rparr>"
      unfolding nightly_fire_run_calls plan by blast
    then have log: "calls (snd ?fire) =
        [ConsoleInfo ''Doing the nightly update!'', MomentUnix] @
        planned_calls (clock 0) before @ ?seq @ take m (planned_calls (clock 0) rest)"
      by simp
    from ids have "?i \<notin> chat_id ` set before" and "?i \<notin> chat_id ` set rest"
      by auto
    then have b: "calls_of_chat ?i (planned_calls (clock 0) before) = []"
      and r: "calls_of_chat ?i (take m (planned_calls (clock 0) rest)) = []"
      by (simp_all add: calls_of_chat_planned_absent calls_of_chat_take_absent)
    have h: "calls_of_chat ?i [ConsoleInfo ''Doing the nightly update!'', MomentUnix] = []"
      by (simp add: calls_of_chat_def)
    have "calls_of_chat ?i (calls (snd ?fire)) = ?seq"
      by (simp only: log calls_of_chat_append b r h calls_of_chat_sequence) simp
    with log show ?thesis by blast
  qed
  with always show ?thesis by blast
qed

theorem nightly_room_sequence_witness:
  "distinct (map chat_id ([\<lparr>chat_id = 1, running = True\<rparr>, \<lparr>chat_id = 2, running = False\<rparr>] @
      \<lparr>chat_id = 3, running = True\<rparr> # [\<lparr>chat_id = 4, running = True\<rparr>])) \<and>
   running \<lparr>chat_id = 3, running = True\<rparr> \<and>
   regeneration_throws 4 (GenerateRandomDankTimes 4) \<and>
   calls_of_chat 3 (calls (snd (nightly_fire (regeneration_throws 4) (fixed_clock 1000)
      ([\<lparr>chat_id = 1, running = True\<rparr>, \<lparr>chat_id = 2, running = False\<rparr>] @
        \<lparr>chat_id = 3, running = True\<rparr> # [\<lparr>chat_id = 4, running = True\<rparr>])))) =
     [UnscheduleRandomDankTimesOfChat 3, UnscheduleAutoLeaderboardsOfChat 3,
      GenerateRandomDankTimes 3, ScheduleRandomDankTimesOfChat 3,
      ScheduleAutoLeaderboardsOfChat 3, HardcoreModeCheck 3 1000, RemoveUsersWithZeroScore 3]"
proof -
  let ?before = "[\<lparr>chat_id = 1, running = True\<rparr>, \<lparr>chat_id = 2, running = False\<rparr>]"
  let ?chat = "\<lparr>chat_id = 3, running = True\<rparr>"
  let ?rest = "[\<lparr>chat_id = 4, running = True\<rparr>]"
  let ?fire = "nightly_fire (regeneration_throws 4) (fixed_clock 1000) (?before @ ?chat # ?rest)"
  have ids: "distinct (map chat_id (?before @ ?chat # ?rest))"
    by simp
  have run: "running ?chat"
    by simp
  have quiet_before: "\<forall>c\<in>set ?before. running c \<longrightarrow>
      (\<forall>x\<in>set (nightly_sequence (fixed_clock 1000 0) (chat_id c)). \<not> regeneration_throws 4 x)"
    by (simp add: nightly_sequence_def regeneration_throws_def)
  have quiet_own: "\<forall>x\<in>set (nightly_sequence (fixed_clock 1000 0) (chat_id ?chat)).
      \<not> regeneration_throws 4 x"
    by (simp add: nightly_sequence_def regeneration_throws_def)
  from nightly_room_sequence [where before = ?before and chat = ?chat and rest = ?rest
      and clock = "fixed_clock 1000" and throws = "regeneration_throws 4", OF ids run]
    quiet_before quiet_own
  have "calls_of_chat (chat_id ?chat) (calls (snd ?fire)) =
      nightly_sequence (fixed_clock 1000 0) (chat_id ?chat)"
    by blast
  then have "calls_of_chat 3 (calls (snd ?fire)) =
     [UnscheduleRandomDankTimesOfChat 3, UnscheduleAutoLeaderboardsOfChat 3,
      GenerateRandomDankTimes 3, ScheduleRandomDankTimesOfChat 3,
      ScheduleAutoLeaderboardsOfChat 3, HardcoreModeCheck 3 1000, RemoveUsersWithZeroScore 3]"
    by (simp add: nightly_sequence_def fixed_clock_def)
  moreover have "regeneration_throws 4 (GenerateRandomDankTimes 4)"
    by (simp add: regeneration_throws_def)
  ultimately show ?thesis
    using ids run by blast
qed

text \<open>
  C2, as the claim states it, fails. The source has no \<open>try\<close>: when the regeneration of
  room 1 throws, the exception is the outcome of the whole callback and room 2, which is
  running, gets no call at all.
\<close>

theorem nightly_failure_counterexample:
  "fst (nightly_fire (regeneration_throws 1) (fixed_clock 1000)
      [\<lparr>chat_id = 1, running = True\<rparr>, \<lparr>chat_id = 2, running = True\<rparr>]) =
     Inl (Thrown (GenerateRandomDankTimes 1)) \<and>
   calls_of_chat 2 (calls (snd (nightly_fire (regeneration_throws 1) (fixed_clock 1000)
      [\<lparr>chat_id = 1, running = True\<rparr>, \<lparr>chat_id = 2, running = True\<rparr>]))) = []"
  by (simp add: nightly_fire_def nightlyUpdate_def and_then_def console_info_def moment_unix_def
      nightly_chat_def invoke_def regeneration_throws_def fixed_clock_def calls_of_chat_def)

text \<open>
  C2, amended. A thrown error is not caught by the coordinator. When \<open>e\<close> is the first
  call of the cycle that throws, a call of a running room's sequence, the outcome of the
  nightly callback is the exception of \<open>e\<close> and the cycle has made exactly these calls:
  the console message and the clock read, the whole sequences of the earlier running
  rooms, the calls of the room's sequence before \<open>e\<close>, and \<open>e\<close>. So the rest of that
  room's sequence and every later room of the registry are not processed, and the
  running rooms before it have been processed in full.
\<close>

theorem nightly_failure_propagates:
  assumes ok: "\<forall>c\<in>set before. running c \<longrightarrow>
      (\<forall>x\<in>set (nightly_sequence (clock 0) (chat_id c)). \<not> throws x)"
    and run: "running chat"
    and seq: "nightly_sequence (clock 0) (chat_id chat) = pre @ e # post"
    and pre: "\<forall>x\<in>set pre. \<not> throws x"
    and e: "throws e"
  shows "nightly_fire throws clock (before @ chat # rest) =
      (Inl (Thrown e),
       \<lparr>calls = [ConsoleInfo ''Doing the nightly update!'', MomentUnix] @
          planned_calls (clock 0) before @ pre @ [e],
        clock_reads = 1\<rparr>) \<and>
     (distinct (map chat_id (before @ chat # rest)) \<longrightarrow>
        calls_of_chat (chat_id chat)
          (calls (snd (nightly_fire throws clock (before @ chat # rest)))) = pre @ [e] \<and>
        (\<forall>c\<in>set rest. calls_of_chat (chat_id c)
           (calls (snd (nightly_fire throws clock (before @ chat # rest)))) = []) \<and>
        (\<forall>c\<in>set before. running c \<longrightarrow>
           calls_of_chat (chat_id c)
             (calls (snd (nightly_fire throws clock (before @ chat # rest)))) =
             nightly_sequence (clock 0) (chat_id c)))"
proof -
  let ?now = "clock 0"
  let ?w = "\<lparr>calls = [ConsoleInfo ''Doing the nightly update!'', MomentUnix], clock_reads = 1\<rparr>"
  let ?fire = "nightly_fire throws clock (before @ chat # rest)"
  have plan: "planned_calls ?now (before @ chat # rest) =
      (planned_calls ?now before @ pre) @ e # (post @ planned_calls ?now rest)"
    using run by (simp add: planned_calls_append planned_calls_Cons seq)
  have before_ok: "\<forall>x\<in>set (planned_calls ?now before @ pre). \<not> throws x"
    using planned_calls_quiet [OF ok] pre by auto
  have "?fire = (Inl (Thrown e), ?w\<lparr>calls := calls ?w @ (planned_calls ?now before @ pre) @ [e]\<rparr>)"
    unfolding nightly_fire_run_calls plan using before_ok e by (rule run_calls_fail)
  then have fire: "?fire = (Inl (Thrown e),
       \<lparr>calls = [ConsoleInfo ''Doing the nightly update!'', MomentUnix] @
          planned_calls ?now before @ pre @ [e],
        clock_reads = 1\<rparr>)"
    by simp
  have log: "calls (snd ?fire) =
      [ConsoleInfo ''Doing the nightly update!'', MomentUnix] @ planned_calls ?now before @ (pre @ [e])"
    by (simp add: fire)
  have own: "\<forall>x\<in>set (pre @ [e]). call_chat x = Some (chat_id chat)"
    using call_chat_sequence [of _ ?now "chat_id chat"] by (auto simp: seq)
  have head: "calls_of_chat i [ConsoleInfo ''Doing the nightly update!'', MomentUnix] = []" for i
    by (simp add: calls_of_chat_def)
  have projections: "calls_of_chat (chat_id chat) (calls (snd ?fire)) = pre @ [e] \<and>
      (\<forall>c\<in>set rest. calls_of_chat (chat_id c) (calls (snd ?fire)) = []) \<and>
      (\<forall>c\<in>set before. running c \<longrightarrow>
         calls_of_chat (chat_id c) (calls (snd ?fire)) = nightly_sequence ?now (chat_id c))"
    if ids: "distinct (map chat_id (before @ chat # rest))"
  proof -
    from ids have d1: "chat_id ` set before \<inter> chat_id ` set rest = {}"
      and d2: "chat_id chat \<notin> chat_id ` set rest"
      and d3: "chat_id chat \<notin> chat_id ` set before"
      and d4: "distinct (map chat_id before)"
      by auto
    have this_room: "calls_of_chat (chat_id chat) (calls (snd ?fire)) = pre @ [e]"
    proof -
      have "calls_of_chat (chat_id chat) (planned_calls ?now before) = []"
        using d3 by (rule calls_of_chat_planned_absent)
      moreover have "calls_of_chat (chat_id chat) (pre @ [e]) = pre @ [e]"
        using own by (rule calls_of_chat_own)
      ultimately show ?thesis
        by (simp only: log calls_of_chat_append head) simp
    qed
    have later: "calls_of_chat (chat_id c) (calls (snd ?fire)) = []" if "c \<in> set rest" for c
    proof -
      from that have img: "chat_id c \<in> chat_id ` set rest" by (rule imageI)
      from d1 img have "chat_id c \<notin> chat_id ` set before"
        by (metis disjoint_iff)
      moreover from d2 img have "chat_id c \<noteq> chat_id chat"
        by metis
      ultimately have "calls_of_chat (chat_id c) (planned_calls ?now before) = []"
        and "calls_of_chat (chat_id c) (pre @ [e]) = []"
        using calls_of_chat_foreign [OF own] by (simp_all add: calls_of_chat_planned_absent)
      then show ?thesis
        by (simp only: log calls_of_chat_append head) simp
    qed
    have earlier: "calls_of_chat (chat_id c) (calls (snd ?fire)) = nightly_sequence ?now (chat_id c)"
      if "c \<in> set before" and "running c" for c
    proof -
      from that have img: "chat_id c \<in> chat_id ` set before" by (simp add: imageI)
      from d3 img have "chat_id c \<noteq> chat_id chat"
        by metis
      then have "calls_of_chat (chat_id c) (planned_calls ?now before) = nightly_sequence ?now (chat_id c)"
        and "calls_of_chat (chat_id c) (pre @ [e]) = []"
        using calls_of_chat_foreign [OF own] that d4 calls_of_chat_planned [of before c ?now]
        by simp_all
      then show ?thesis
        by (simp only: log calls_of_chat_append head) simp
    qed
    from this_room later earlier show ?thesis by blast
  qed
  from fire projections show ?thesis by blast
qed

theorem nightly_failure_propagates_witness:
  "running \<lparr>chat_id = 2, running = True\<rparr> \<and>
   regeneration_throws 2 (GenerateRandomDankTimes 2) \<and>
   nightly_fire (regeneration_throws 2) (fixed_clock 1000)
      ([\<lparr>chat_id = 1, running = True\<rparr>] @ \<lparr>chat_id = 2, running = True\<rparr> #
        [\<lparr>chat_id = 3, running = True\<rparr>]) =
     (Inl (Thrown (GenerateRandomDankTimes 2)),
      \<lparr>calls = [ConsoleInfo ''Doing the nightly update!'', MomentUnix,
         UnscheduleRandomDankTimesOfChat 1, UnscheduleAutoLeaderboardsOfChat 1,
         GenerateRandomDankTimes 1, ScheduleRandomDankTimesOfChat 1,
         ScheduleAutoLeaderboardsOfChat 1, HardcoreModeCheck 1 1000, RemoveUsersWithZeroScore 1,
         UnscheduleRandomDankTimesOfChat 2, UnscheduleAutoLeaderboardsOfChat 2,
         GenerateRandomDankTimes 2],
       clock_reads = 1\<rparr>) \<and>
   calls_of_chat 3 (calls (snd (nightly_fire (regeneration_throws 2) (fixed_clock 1000)
      ([\<lparr>chat_id = 1, running = True\<rparr>] @ \<lparr>chat_id = 2, running = True\<rparr> #
        [\<lparr>chat_id = 3, running = True\<rparr>])))) = []"
proof -
  let ?before = "[\<lparr>chat_id = 1, running = True\<rparr>]"
  let ?chat = "\<lparr>chat_id = 2, running = True\<rparr>"
  let ?rest = "[\<lparr>chat_id = 3, running = True\<rparr>]"
  let ?pre = "[UnscheduleRandomDankTimesOfChat 2, UnscheduleAutoLeaderboardsOfChat 2]"
  let ?post = "[ScheduleRandomDankTimesOfChat 2, ScheduleAutoLeaderboardsOfChat 2,
      HardcoreModeCheck 2 1000, RemoveUsersWithZeroScore 2]"
  let ?fire = "nightly_fire (regeneration_throws 2) (fixed_clock 1000) (?before @ ?chat # ?rest)"
  have ok: "\<forall>c\<in>set ?before. running c \<longrightarrow>
      (\<forall>x\<in>set (nightly_sequence (fixed_clock 1000 0) (chat_id c)). \<not> regeneration_throws 2 x)"
    by (simp add: nightly_sequence_def regeneration_throws_def)
  have run: "running ?chat"
    by simp
  have seq: "nightly_sequence (fixed_clock 1000 0) (chat_id ?chat) =
      ?pre @ GenerateRandomDankTimes 2 # ?post"
    by (simp add: nightly_sequence_def fixed_clock_def)
  have pre: "\<forall>x\<in>set ?pre. \<not> regeneration_throws 2 x"
    by (simp add: regeneration_throws_def)
  have e: "regeneration_throws 2 (GenerateRandomDankTimes 2)"
    by (simp add: regeneration_throws_def)
  have ids: "distinct (map chat_id (?before @ ?chat # ?rest))"
    by simp
  note inst = nightly_failure_propagates [where before = ?before and chat = ?chat
      and rest = ?rest and clock = "fixed_clock 1000" and throws = "regeneration_throws 2"
      and pre = ?pre and e = "GenerateRandomDankTimes 2" and post = ?post,
      OF ok run seq pre e]
  from inst have "?fire = (Inl (Thrown (GenerateRandomDankTimes 2)),
       \<lparr>calls = [ConsoleInfo ''Doing the nightly update!'', MomentUnix] @
          planned_calls (fixed_clock 1000 0) ?before @ ?pre @ [GenerateRandomDankTimes 2],
        clock_reads = 1\<rparr>)"
    by blast
  then have exact: "?fire = (Inl (Thrown (GenerateRandomDankTimes 2)),
      \<lparr>calls = [ConsoleInfo ''Doing the nightly update!'', MomentUnix,
         UnscheduleRandomDankTimesOfChat 1, UnscheduleAutoLeaderboardsOfChat 1,
         GenerateRandomDankTimes 1, ScheduleRandomDankTimesOfChat 1,
         ScheduleAutoLeaderboardsOfChat 1, HardcoreModeCheck 1 1000, RemoveUsersWithZeroScore 1,
         UnscheduleRandomDankTimesOfChat 2, UnscheduleAutoLeaderboardsOfChat 2,
         GenerateRandomDankTimes 2],
       clock_reads = 1\<rparr>)"
    by (simp add: planned_calls_def nightly_sequence_def fixed_clock_def)
  from inst ids have "\<forall>c\<in>set ?rest. calls_of_chat (chat_id c) (calls (snd ?fire)) = []"
    by blast
  then have "calls_of_chat 3 (calls (snd ?fire)) = []"
    by simp
  with exact run e show ?thesis by blast
qed

text \<open>
  C9. In one nightly cycle the clock is read exactly once, as the second call of the
  cycle and so before any room is visited; it is not read again, and every hardcore-mode
  check of the cycle receives the value of that one read, whatever the clock would have
  returned later. When nothing fails, every running room gets its check with that value.
\<close>

theorem nightly_now_read_once:
  "\<exists>rest. calls (snd (nightly_fire throws clock chats)) =
       ConsoleInfo ''Doing the nightly update!'' # MomentUnix # rest \<and>
     MomentUnix \<notin> set rest \<and>
     clock_reads (snd (nightly_fire throws clock chats)) = 1 \<and>
     (\<forall>i n. HardcoreModeCheck i n \<in> set rest \<longrightarrow> n = clock 0) \<and>
     ((\<forall>c. \<not> throws c) \<longrightarrow>
        (\<forall>chat\<in>set chats. running chat \<longrightarrow> HardcoreModeCheck (chat_id chat) (clock 0) \<in> set rest))"
proof -
  let ?w = "\<lparr>calls = [ConsoleInfo ''Doing the nightly update!'', MomentUnix], clock_reads = 1\<rparr>"
  let ?plan = "planned_calls (clock 0) chats"
  obtain k where k: "snd (nightly_fire throws clock chats) = ?w\<lparr>calls := calls ?w @ take k ?plan\<rparr>"
    using run_calls_prefix [of throws ?plan ?w] by (auto simp: nightly_fire_run_calls)
  have sub: "set (take k ?plan) \<subseteq> set ?plan"
    by (rule set_take_subset)
  have no_clock: "MomentUnix \<notin> set (take k ?plan)"
    using sub planned_calls_elem nightly_sequence_no_clock by blast
  have same: "\<forall>i n. HardcoreModeCheck i n \<in> set (take k ?plan) \<longrightarrow> n = clock 0"
    using sub planned_calls_elem nightly_sequence_now by blast
  have all: "(\<forall>c. \<not> throws c) \<longrightarrow>
      (\<forall>chat\<in>set chats. running chat \<longrightarrow> HardcoreModeCheck (chat_id chat) (clock 0) \<in> set ?plan)"
    by (simp add: planned_calls_hardcore)
  have full: "(\<forall>c. \<not> throws c) \<longrightarrow> snd (nightly_fire throws clock chats) = ?w\<lparr>calls := calls ?w @ ?plan\<rparr>"
    by (simp add: nightly_fire_run_calls run_calls_ok)
  show ?thesis
  proof (cases "\<forall>c. \<not> throws c")
    case True
    with full have "calls (snd (nightly_fire throws clock chats)) =
        ConsoleInfo ''Doing the nightly update!'' # MomentUnix # ?plan"
      and "clock_reads (snd (nightly_fire throws clock chats)) = 1" by simp_all
    moreover have "MomentUnix \<notin> set ?plan"
      using planned_calls_elem nightly_sequence_no_clock by blast
    moreover have "\<forall>i n. HardcoreModeCheck i n \<in> set ?plan \<longrightarrow> n = clock 0"
      using planned_calls_elem nightly_sequence_now by blast
    ultimately show ?thesis using all by blast
  next
    case False
    from k have "calls (snd (nightly_fire throws clock chats)) =
        ConsoleInfo ''Doing the nightly update!'' # MomentUnix # take k ?plan"
      and "clock_reads (snd (nightly_fire throws clock chats)) = 1" by simp_all
    with no_clock same False show ?thesis by blast
  qed
qed

theorem nightly_now_read_once_witness:
  "HardcoreModeCheck 1 1000 \<in> set (calls (snd (nightly_fire nothing_throws (ticking_clock 1000)
      [\<lparr>chat_id = 1, running = True\<rparr>, \<lparr>chat_id = 2, running = True\<rparr>]))) \<and>
   HardcoreModeCheck 2 1000 \<in> set (calls (snd (nightly_fire nothing_throws (ticking_clock 1000)
      [\<lparr>chat_id = 1, running = True\<rparr>, \<lparr>chat_id = 2, running = True\<rparr>]))) \<and>
   HardcoreModeCheck 2 1001 \<notin> set (calls (snd (nightly_fire nothing_throws (ticking_clock 1000)
      [\<lparr>chat_id = 1, running = True\<rparr>, \<lparr>chat_id = 2, running = True\<rparr>]))) \<and>
   clock_reads (snd (nightly_fire nothing_throws (ticking_clock 1000)
      [\<lparr>chat_id = 1, running = True\<rparr>, \<lparr>chat_id = 2, running = True\<rparr>])) = 1"
proof -
  let ?chats = "[\<lparr>chat_id = 1, running = True\<rparr>, \<lparr>chat_id = 2, running = True\<rparr>]"
  let ?w = "snd (nightly_fire nothing_throws (ticking_clock 1000) ?chats)"
  from nightly_now_read_once [of nothing_throws "ticking_clock 1000" ?chats]
  obtain rest where log: "calls ?w = ConsoleInfo ''Doing the nightly update!'' # MomentUnix # rest"
    and reads: "clock_reads ?w = 1"
    and same: "\<forall>i n. HardcoreModeCheck i n \<in> set rest \<longrightarrow> n = ticking_clock 1000 0"
    and every: "(\<forall>c. \<not> nothing_throws c) \<longrightarrow>
      (\<forall>chat\<in>set ?chats. running chat \<longrightarrow>
         HardcoreModeCheck (chat_id chat) (ticking_clock 1000 0) \<in> set rest)"
    by blast
  from every have "HardcoreModeCheck 1 1000 \<in> set rest" and "HardcoreModeCheck 2 1000 \<in> set rest"
    by (simp_all add: nothing_throws_def ticking_clock_def)
  moreover from same [rule_format, of 2 1001] have "HardcoreModeCheck 2 1001 \<notin> set rest"
    by (auto simp: ticking_clock_def)
  ultimately show ?thesis
    using reads by (simp add: log)
qed

end
